theory Spec2Isabelle
  imports Main "HOL-Library.Word"
begin

section \<open>The connection core of conn.go\<close>

text \<open>
  A shallow embedding of \<^verbatim>\<open>conn.go\<close>: the connection object, its close routine, the
  deadline watchdog, the ping exchange and the channel-based mutex.

  Concurrency is modelled by interleaving. Every function below is one step that the Go
  code runs without another goroutine getting in between (a non-blocking channel
  operation, a \<^verbatim>\<open>select\<close>, or a body that holds \<^verbatim>\<open>closeMu\<close> from its first statement to
  its last). Where a function spans several such steps, what other goroutines do in
  between is an argument of the function. A \<^verbatim>\<open>select\<close> takes the case it runs as an
  argument and yields \<open>None\<close> when that case is not ready, so the theorems quantify over
  every choice the Go runtime can make.
\<close>

subsection \<open>Errors and contexts\<close>

text \<open>
  Go's \<^verbatim>\<open>error\<close> values: \<^verbatim>\<open>errors.New(s)\<close>, \<^verbatim>\<open>fmt.Errorf(s + "%w", e)\<close>,
  \<^verbatim>\<open>net.ErrClosed\<close>, and the two errors a context reports. A nil error is \<open>None\<close>.
\<close>

datatype error =
    ErrorsNew string
  | Errorf string error
  | ErrClosed
  | Canceled
  | DeadlineExceeded

text \<open>
  A \<^verbatim>\<open>context.Context\<close> is known by its identity. Whether it is done, and the error
  \<^verbatim>\<open>ctx.Err()\<close> then returns, is decided outside the connection and is read from an
  environment at the moment of each \<^verbatim>\<open>select\<close>. \<^verbatim>\<open>context.Background()\<close> is never done.
\<close>

datatype "context" = Background | Ctx nat

type_synonym ctxenv = "nat \<Rightarrow> error option"

fun ctxErr :: "ctxenv \<Rightarrow> context \<Rightarrow> error option" where
  "ctxErr env Background = None"
| "ctxErr env (Ctx i) = env i"

subsection \<open>Channels of capacity one\<close>

text \<open>
  \<^verbatim>\<open>make(chan struct{}, 1)\<close>: a buffer with one slot for a value that carries no data.
  A send is ready when the slot is empty, a receive when it is full; \<open>None\<close> says that
  the operation would block.
\<close>

datatype chan1 = Empty | Full

fun chan_send :: "chan1 \<Rightarrow> chan1 option" where
  "chan_send Empty = Some Full"
| "chan_send Full = None"

fun chan_recv :: "chan1 \<Rightarrow> chan1 option" where
  "chan_recv Full = Some Empty"
| "chan_recv Empty = None"

subsection \<open>The mutex\<close>

text \<open>
  \<^verbatim>\<open>type mu struct { c *Conn; ch chan struct{} }\<close>. The back pointer \<^verbatim>\<open>c\<close> is the
  connection that holds the mutex; \<^verbatim>\<open>lock\<close>, the one method that follows it, is defined
  on the connection further down.
\<close>

record mu =
  ch :: chan1

definition newMu :: mu where
  "newMu = \<lparr>ch = Empty\<rparr>"

text \<open>\<^verbatim>\<open>m.ch <- struct{}{}\<close>: blocks (\<open>None\<close>) while the slot is full.\<close>

definition forceLock :: "mu \<Rightarrow> mu option" where
  "forceLock m = (case chan_send (ch m) of None \<Rightarrow> None | Some ch' \<Rightarrow> Some (m\<lparr>ch := ch'\<rparr>))"

text \<open>\<^verbatim>\<open>select { case m.ch <- struct{}{}: return true; default: return false }\<close>\<close>

definition tryLock :: "mu \<Rightarrow> bool \<times> mu" where
  "tryLock m = (case chan_send (ch m) of Some ch' \<Rightarrow> (True, m\<lparr>ch := ch'\<rparr>) | None \<Rightarrow> (False, m))"

text \<open>\<^verbatim>\<open>select { case <-m.ch: default: }\<close>\<close>

definition unlock :: "mu \<Rightarrow> mu" where
  "unlock m = (case chan_recv (ch m) of Some ch' \<Rightarrow> m\<lparr>ch := ch'\<rparr> | None \<Rightarrow> m)"

subsection \<open>The connection\<close>

text \<open>
  The transport \<^verbatim>\<open>rwc io.ReadWriteCloser\<close> is outside the connection core. The model
  keeps how often its \<^verbatim>\<open>Close\<close> was called and what the coming calls will return (nil
  once the list is used up).
\<close>

record transport =
  closeCalls :: nat
  closeRets :: "error option list"

definition rwc_Close :: "transport \<Rightarrow> error option \<times> transport" where
  "rwc_Close t =
     (case closeRets t of
        [] \<Rightarrow> (None, t\<lparr>closeCalls := Suc (closeCalls t)\<rparr>)
      | r # rs \<Rightarrow> (r, t\<lparr>closeCalls := Suc (closeCalls t), closeRets := rs\<rparr>))"

text \<open>
  Modelled from the spec: the type \<^verbatim>\<open>compressionOptions\<close> is declared in another file. The
  core only tests whether the options are present, so they are one opaque value.
\<close>

datatype compressionOptions = CompressionOptions

text \<open>
  Modelled from the spec: the constants \<^verbatim>\<open>StatusPolicyViolation\<close> and \<^verbatim>\<open>opPing\<close> are
  declared in other files; they are the status of the close frame sent on a read timeout
  and the opcode of a ping control frame.
\<close>

datatype StatusCode = StatusPolicyViolation

datatype opcode = opPing

text \<open>
  The goroutines the core starts with \<^verbatim>\<open>go func() { ... }()\<close>: the watchdog
  (\<^verbatim>\<open>c.timeoutLoop()\<close>), the teardown of the frame codec
  (\<^verbatim>\<open>c.msgWriter.close(); c.msgReader.close()\<close>) and the close frame of a read timeout
  (\<^verbatim>\<open>c.writeError(code, err)\<close>). Starting one records it; its body runs later, on its own.
\<close>

datatype task =
    TaskTimeoutLoop
  | TaskTeardown
  | TaskWriteError StatusCode error

text \<open>
  \<^verbatim>\<open>type Conn struct\<close>, the fields that \<^verbatim>\<open>conn.go\<close> reads or writes. \<open>closed\<close> is the channel
  \<^verbatim>\<open>closed chan struct{}\<close>, on which nothing is ever sent: its state is how many times
  \<^verbatim>\<open>close(c.closed)\<close> has run. It is open at 0, a receive from it is ready from 1 on,
  and Go panics on a second close. \<open>finalizer\<close> says whether \<^verbatim>\<open>runtime.SetFinalizer\<close>
  has a finalizer installed, \<open>wg\<close> counts \<^verbatim>\<open>c.wg.Add(1)\<close>, \<open>tasks\<close> lists the
  goroutines started, and \<open>chans\<close> is the heap of the channels made by \<^verbatim>\<open>ping\<close>, which
  \<open>activePings\<close> refers to by index. The buffers, the frame reader and writer, the two
  unbuffered deadline channels (which hold no value between a send and its receive) and
  the ping callback play no part in the functions below.
\<close>

record Conn =
  subprotocol :: string
  rwc :: transport
  client :: bool
  copts :: "compressionOptions option"
  flateThreshold :: int
  readMu :: mu
  writeFrameMu :: mu
  wg :: nat
  closed :: nat
  closeErr :: "error option"
  wroteClose :: bool
  pingCounter :: "32 word"
  activePings :: "string \<rightharpoonup> nat"
  finalizer :: bool
  tasks :: "task list"
  chans :: "chan1 list"

record connConfig =
  cfg_subprotocol :: string
  cfg_rwc :: transport
  cfg_client :: bool
  cfg_copts :: "compressionOptions option"
  cfg_flateThreshold :: int

text \<open>\<^verbatim>\<open>c.wg.Add(1); go func() { defer c.wg.Done(); ... }()\<close>\<close>

definition go :: "task \<Rightarrow> Conn \<Rightarrow> Conn" where
  "go t c = c\<lparr>wg := Suc (wg c), tasks := tasks c @ [t]\<rparr>"

definition flate :: "Conn \<Rightarrow> bool" where
  "flate c = (copts c \<noteq> None)"

text \<open>
  \<^verbatim>\<open>newConn\<close>. The method \<^verbatim>\<open>msgWriter.flateContextTakeover\<close> belongs to the frame writer,
  in another file; what its one call returns is the argument \<open>flateContextTakeover\<close>.
  \<open>newConn_literal\<close> is the composite literal and the two \<^verbatim>\<open>newMu(c)\<close> that open the
  function.
\<close>

definition newConn_literal :: "connConfig \<Rightarrow> Conn" where
  "newConn_literal cfg =
     \<lparr>subprotocol = cfg_subprotocol cfg, rwc = cfg_rwc cfg, client = cfg_client cfg,
      copts = cfg_copts cfg, flateThreshold = cfg_flateThreshold cfg,
      readMu = newMu, writeFrameMu = newMu, wg = 0, closed = 0, closeErr = None,
      wroteClose = False, pingCounter = 0, activePings = Map.empty, finalizer = False,
      tasks = [], chans = []\<rparr>"

definition newConn :: "bool \<Rightarrow> connConfig \<Rightarrow> Conn" where
  "newConn flateContextTakeover cfg =
     (let c = newConn_literal cfg;
          c = (if flate c \<and> flateThreshold c = 0
               then (let c = c\<lparr>flateThreshold := 128\<rparr>
                     in if \<not> flateContextTakeover then c\<lparr>flateThreshold := 512\<rparr> else c)
               else c);
          c = c\<lparr>finalizer := True\<rparr>
      in go TaskTimeoutLoop c)"

definition Subprotocol :: "Conn \<Rightarrow> string" where
  "Subprotocol c = subprotocol c"

subsection \<open>Close\<close>

text \<open>
  A receive from \<^verbatim>\<open>c.closed\<close> is ready once the channel has been closed: the closed
  signal has fired.
\<close>

definition closedFired :: "Conn \<Rightarrow> bool" where
  "closedFired c = (0 < closed c)"

text \<open>
  Modelled from the spec: \<^verbatim>\<open>isClosed\<close>, \<^verbatim>\<open>setCloseErrLocked\<close> and \<^verbatim>\<open>setCloseErr\<close> are
  methods of \<^verbatim>\<open>Conn\<close> defined in another file. The spec: \<^verbatim>\<open>close\<close> returns at once "if
  already closed", that is, when the closed signal has fired; the close error is
  write-once, "the first error to reach it wins", and the write is guarded by a dedicated
  lock (so \<open>setCloseErr\<close> is \<open>setCloseErrLocked\<close> run under \<^verbatim>\<open>closeMu\<close>, one step). A nil
  error is no error and records nothing.
\<close>

definition isClosed :: "Conn \<Rightarrow> bool" where
  "isClosed c = closedFired c"

definition setCloseErrLocked :: "error option \<Rightarrow> Conn \<Rightarrow> Conn" where
  "setCloseErrLocked err c =
     (case closeErr c of
        None \<Rightarrow> (case err of None \<Rightarrow> c | Some e \<Rightarrow> c\<lparr>closeErr := Some e\<rparr>)
      | Some e0 \<Rightarrow> c)"

definition setCloseErr :: "error option \<Rightarrow> Conn \<Rightarrow> Conn" where
  "setCloseErr err c = setCloseErrLocked err c"

text \<open>
  \<^verbatim>\<open>func (c *Conn) close(err error)\<close>. The body holds \<^verbatim>\<open>closeMu\<close> from its first
  statement to its last, so concurrent calls run one after the other and each is one
  step.
\<close>

definition close :: "error option \<Rightarrow> Conn \<Rightarrow> Conn" where
  "close err c =
     (if isClosed c then c
      else
        let (err, c) = (case err of
                          None \<Rightarrow> (let (r, t) = rwc_Close (rwc c) in (r, c\<lparr>rwc := t\<rparr>))
                        | Some e \<Rightarrow> (Some e, c));
            c = setCloseErrLocked err c;
            c = c\<lparr>closed := Suc (closed c)\<rparr>;
            c = c\<lparr>finalizer := False\<rparr>;
            c = c\<lparr>rwc := snd (rwc_Close (rwc c))\<rparr>
        in go TaskTeardown c)"

subsection \<open>The deadline watchdog\<close>










subsection \<open>Ping\<close>

text \<open>\<^verbatim>\<open>strconv.Itoa\<close>: the decimal digits of an integer, after a minus sign when it is negative.\<close>

definition digit :: "nat \<Rightarrow> char" where
  "digit d = ''0123456789'' ! d"

fun digits :: "nat \<Rightarrow> string" where
  "digits n = (if n < 10 then [digit n] else digits (n div 10) @ [digit (n mod 10)])"

definition Itoa :: "int \<Rightarrow> string" where
  "Itoa i = (if i < 0 then CHR ''-'' # digits (nat (- i)) else digits (nat i))"

text \<open>
  Reading a string of digits back as a number; used to show that \<open>Itoa\<close> gives different
  integers different strings.
\<close>

definition digit_val :: "char \<Rightarrow> nat" where
  "digit_val x = of_char x - 48"

definition undigits :: "string \<Rightarrow> nat" where
  "undigits s = foldl (\<lambda>a x. 10 * a + digit_val x) 0 s"

text \<open>The cases of the \<^verbatim>\<open>select\<close> in \<^verbatim>\<open>ping\<close>, in the order of the source.\<close>

datatype ping_case = PingClosed | PingCtxDone | PingPong

text \<open>
  \<^verbatim>\<open>func (c *Conn) ping(ctx context.Context, p string) error\<close>, in the steps it is made
  of. \<open>ping_register\<close> makes the channel \<^verbatim>\<open>pong\<close> and stores it under the payload, with
  \<^verbatim>\<open>activePingsMu\<close> held; \<open>ping_unregister\<close> is the deferred function; \<open>ping_wait\<close> is the
  \<^verbatim>\<open>select\<close>.
\<close>

definition ping_register :: "string \<Rightarrow> Conn \<Rightarrow> nat \<times> Conn" where
  "ping_register p c =
     (let pong = length (chans c);
          c = c\<lparr>chans := chans c @ [Empty]\<rparr>;
          c = c\<lparr>activePings := (activePings c)(p \<mapsto> pong)\<rparr>
      in (pong, c))"

definition ping_unregister :: "string \<Rightarrow> Conn \<Rightarrow> Conn" where
  "ping_unregister p c = c\<lparr>activePings := (activePings c)(p := None)\<rparr>"

definition ping_wait ::
  "ping_case \<Rightarrow> ctxenv \<Rightarrow> context \<Rightarrow> nat \<Rightarrow> Conn \<Rightarrow> (error option \<times> Conn) option" where
  "ping_wait sel env ctx pong c =
     (case sel of
        PingClosed \<Rightarrow> if closedFired c then Some (Some ErrClosed, c) else None
      | PingCtxDone \<Rightarrow>
          (case ctxErr env ctx of
             None \<Rightarrow> None
           | Some e \<Rightarrow>
               (let err = Errorf ''failed to wait for pong: '' e
                in Some (Some err, close (Some err) c)))
      | PingPong \<Rightarrow>
          (if pong < length (chans c)
           then (case chan_recv (chans c ! pong) of
                   None \<Rightarrow> None
                 | Some ch' \<Rightarrow> Some (None, c\<lparr>chans := (chans c)[pong := ch']\<rparr>))
           else None))"

text \<open>
  \<^verbatim>\<open>writeControl\<close> is defined in another file and is the argument \<open>writeControl\<close>: it
  returns an error or nil and the connection as it is when the \<^verbatim>\<open>select\<close> that follows
  runs, with whatever other goroutines did meanwhile (the reader delivering the pong into
  the registered channel, for one). The deferred function runs on every return. The
  result is \<open>None\<close> while the \<^verbatim>\<open>select\<close> cannot run the given case.
\<close>

definition ping ::
  "(context \<Rightarrow> opcode \<Rightarrow> string \<Rightarrow> Conn \<Rightarrow> error option \<times> Conn) \<Rightarrow> ping_case \<Rightarrow>
     ctxenv \<Rightarrow> context \<Rightarrow> string \<Rightarrow> Conn \<Rightarrow> (error option \<times> Conn) option" where
  "ping writeControl sel env ctx p c =
     (let (pong, c) = ping_register p c;
          body =
            (case writeControl ctx opPing p c of
               (Some err, c) \<Rightarrow> Some (Some err, c)
             | (None, c) \<Rightarrow> ping_wait sel env ctx pong c)
      in case body of
           None \<Rightarrow> None
         | Some (r, c) \<Rightarrow> Some (r, ping_unregister p c))"

text \<open>
  \<^verbatim>\<open>atomic.AddInt32(&c.pingCounter, 1)\<close> on the \<^verbatim>\<open>int32\<close> counter: the addition wraps, and
  the new value is returned.
\<close>

definition AddInt32_pingCounter :: "32 word \<Rightarrow> Conn \<Rightarrow> 32 word \<times> Conn" where
  "AddInt32_pingCounter delta c = (pingCounter c + delta, c\<lparr>pingCounter := pingCounter c + delta\<rparr>)"

text \<open>
  The first statement of \<^verbatim>\<open>Ping\<close> and the payload \<^verbatim>\<open>strconv.Itoa(int(p))\<close> it hands to
  \<^verbatim>\<open>ping\<close>; the conversion of the \<^verbatim>\<open>int32\<close> to \<^verbatim>\<open>int\<close> keeps its signed value.
\<close>

definition Ping_payload :: "Conn \<Rightarrow> string \<times> Conn" where
  "Ping_payload c = (let (p, c) = AddInt32_pingCounter 1 c in (Itoa (sint p), c))"

definition Ping ::
  "(context \<Rightarrow> opcode \<Rightarrow> string \<Rightarrow> Conn \<Rightarrow> error option \<times> Conn) \<Rightarrow> ping_case \<Rightarrow>
     ctxenv \<Rightarrow> context \<Rightarrow> Conn \<Rightarrow> (error option \<times> Conn) option" where
  "Ping writeControl sel env ctx c =
     (let (p, c) = Ping_payload c
      in case ping writeControl sel env ctx p c of
           None \<Rightarrow> None
         | Some (Some err, c) \<Rightarrow> Some (Some (Errorf ''failed to ping: '' err), c)
         | Some (None, c) \<Rightarrow> Some (None, c))"

text \<open>
  The payloads of \<open>n\<close> calls of \<^verbatim>\<open>Ping\<close>, in the order in which the calls increment the
  counter.
\<close>

fun Ping_payloads :: "nat \<Rightarrow> Conn \<Rightarrow> string list" where
  "Ping_payloads 0 c = []"
| "Ping_payloads (Suc n) c = (let (p, c) = Ping_payload c in p # Ping_payloads n c)"

subsection \<open>Acquiring the mutex\<close>

text \<open>
  A \<^verbatim>\<open>*mu\<close> is one of the two mutexes of its connection, \<^verbatim>\<open>c.readMu\<close> or
  \<^verbatim>\<open>c.writeFrameMu\<close>.
\<close>

datatype mu_ref = ReadMu | WriteFrameMu

fun get_mu :: "mu_ref \<Rightarrow> Conn \<Rightarrow> mu" where
  "get_mu ReadMu c = readMu c"
| "get_mu WriteFrameMu c = writeFrameMu c"

fun put_mu :: "mu_ref \<Rightarrow> mu \<Rightarrow> Conn \<Rightarrow> Conn" where
  "put_mu ReadMu m c = c\<lparr>readMu := m\<rparr>"
| "put_mu WriteFrameMu m c = c\<lparr>writeFrameMu := m\<rparr>"

text \<open>The cases of the outer \<^verbatim>\<open>select\<close> in \<^verbatim>\<open>lock\<close>, in the order of the source.\<close>

datatype lock_case = LockClosed | LockCtxDone | LockSend

text \<open>
  \<^verbatim>\<open>func (m *mu) lock(ctx context.Context) error\<close>. After the send on \<^verbatim>\<open>m.ch\<close> has gone
  through, the inner \<^verbatim>\<open>select\<close> is a second step: \<open>others\<close> is what the other goroutines
  do to the connection between the two.
\<close>

definition lock ::
  "lock_case \<Rightarrow> (Conn \<Rightarrow> Conn) \<Rightarrow> ctxenv \<Rightarrow> context \<Rightarrow> mu_ref \<Rightarrow> Conn \<Rightarrow>
     (error option \<times> Conn) option" where
  "lock sel others env ctx m c =
     (case sel of
        LockClosed \<Rightarrow> if closedFired c then Some (Some ErrClosed, c) else None
      | LockCtxDone \<Rightarrow>
          (case ctxErr env ctx of
             None \<Rightarrow> None
           | Some e \<Rightarrow>
               (let err = Errorf ''failed to acquire lock: '' e
                in Some (Some err, close (Some err) c)))
      | LockSend \<Rightarrow>
          (case chan_send (ch (get_mu m c)) of
             None \<Rightarrow> None
           | Some ch' \<Rightarrow>
               (let c = others (put_mu m ((get_mu m c)\<lparr>ch := ch'\<rparr>) c)
                in if closedFired c
                   then Some (Some ErrClosed, put_mu m (unlock (get_mu m c)) c)
                   else Some (None, c))))"

subsection \<open>Runs of calls\<close>

text \<open>
  Calls of \<^verbatim>\<open>close\<close> with the non-nil errors \<open>errs\<close>, in the order in which the calls
  obtain \<^verbatim>\<open>closeMu\<close>.
\<close>

definition closeAll :: "error list \<Rightarrow> Conn \<Rightarrow> Conn" where
  "closeAll errs c = fold (\<lambda>e. close (Some e)) errs c"

subsection \<open>A configuration for examples\<close>

text \<open>A server-side connection without compression over a transport whose \<^verbatim>\<open>Close\<close> returns nil.\<close>

abbreviation testConfig :: connConfig where
  "testConfig \<equiv>
     \<lparr>cfg_subprotocol = [], cfg_rwc = \<lparr>closeCalls = 0, closeRets = []\<rparr>,
      cfg_client = False, cfg_copts = None, cfg_flateThreshold = 0\<rparr>"

text \<open>An environment in which every context the caller made has been cancelled.\<close>

definition allCanceled :: ctxenv where
  "allCanceled i = Some Canceled"

section \<open>Properties of the mutex\<close>

lemma ch_unlock: "ch (unlock m) = Empty"
  by (cases "ch m") (simp_all add: unlock_def)

lemma unlock_Empty: "ch m = Empty \<Longrightarrow> unlock m = m"
  by (simp add: unlock_def)

text \<open>
  Claim C7. Release is total and idempotent: \<open>unlock\<close> is a function of the lock state
  alone that always returns a lock state (the \<^verbatim>\<open>default\<close> case of its \<^verbatim>\<open>select\<close> runs when
  the receive is not ready, so it neither blocks nor fails); on a lock whose slot is empty
  it returns the state unchanged; and releasing twice is the same as releasing once.
\<close>

theorem unlock_idempotent_total:
  "(ch m = Empty \<longrightarrow> unlock m = m) \<and> unlock (unlock m) = unlock m"
  by (simp add: unlock_Empty ch_unlock)

theorem unlock_idempotent_total_witness:
  "ch newMu = Empty \<and> unlock newMu = newMu \<and> unlock (unlock newMu) = unlock newMu"
  using unlock_idempotent_total [of newMu] by (simp add: newMu_def)

text \<open>
  Claim C9. Release is not holder-checked. The lock state is the slot alone and \<open>unlock\<close>
  takes no argument that names its caller, so on every state whose slot is occupied,
  whoever filled it, \<open>unlock\<close> empties the slot, and the next \<open>tryLock\<close> by any task
  succeeds while the task that filled the slot has not released it.
\<close>

theorem unlock_not_holder_checked:
  "ch m = Full \<Longrightarrow>
     ch (unlock m) = Empty \<and> fst (tryLock (unlock m)) \<and> forceLock (unlock m) = Some m"
  by (simp add: unlock_def tryLock_def forceLock_def)

theorem unlock_not_holder_checked_witness:
  "ch (snd (tryLock newMu)) = Full \<and> fst (tryLock newMu) \<and>
   ch (unlock (snd (tryLock newMu))) = Empty \<and>
   fst (tryLock (unlock (snd (tryLock newMu))))"
  using unlock_not_holder_checked [of "snd (tryLock newMu)"]
  by (simp add: newMu_def tryLock_def)

section \<open>Properties of close\<close>

lemma closedFired_close: "closedFired (close err c)"
  by (simp add: close_def closedFired_def isClosed_def go_def Let_def split: prod.splits option.splits)

lemma close_closed: "closedFired c \<Longrightarrow> close err c = c"
  by (simp add: close_def isClosed_def)

lemma closeAll_closed: "closedFired c \<Longrightarrow> closeAll errs c = c"
  unfolding closeAll_def by (induction errs) (simp_all add: close_closed)

lemma closeAll_Cons: "closeAll (e # es) c = close (Some e) c"
  by (simp add: closeAll_def closeAll_closed [unfolded closeAll_def] closedFired_close)

lemma close_Some_open:
  "\<not> closedFired c \<Longrightarrow>
     close (Some e) c =
       c\<lparr>closeErr := (case closeErr c of None \<Rightarrow> Some e | Some e0 \<Rightarrow> Some e0),
         closed := Suc (closed c), finalizer := False,
         rwc := snd (rwc_Close (rwc c)),
         wg := Suc (wg c), tasks := tasks c @ [TaskTeardown]\<rparr>"
  by (simp add: close_def isClosed_def setCloseErrLocked_def go_def split: option.splits)

lemma closeCalls_rwc_Close: "closeCalls (snd (rwc_Close t)) = Suc (closeCalls t)"
  by (simp add: rwc_Close_def split: list.splits)

lemma closeErr_close_Some:
  "closeErr (close (Some e) c) =
     (if closedFired c then closeErr c
      else case closeErr c of None \<Rightarrow> Some e | Some e0 \<Rightarrow> Some e0)"
  by (simp add: close_closed close_Some_open)

lemma setCloseErr_recorded: "closeErr c \<noteq> None \<Longrightarrow> setCloseErr err c = c"
  by (auto simp: setCloseErr_def setCloseErrLocked_def)

text \<open>
  Claim C1. Close is idempotent. Calls of \<open>close\<close> run one at a time, in the order in
  which they obtain \<^verbatim>\<open>closeMu\<close>; \<open>e # es\<close> are the non-nil errors of \<open>N \<ge> 1\<close> calls in
  that order, on any connection \<open>c\<close>. The calls after the first change nothing (the run
  ends in the state the first call leaves, and any further call, with an error or with
  nil, leaves it unchanged). On a connection that is still open the first call fires the
  closed signal, which has then fired once; the close error is from then on the first
  error that reached the close-error slot, which is \<open>e\<close> unless the watchdog had recorded
  a read timeout before, and a later \<open>setCloseErr\<close> does not replace it; and the
  transport's \<^verbatim>\<open>Close\<close> has been called once more than before. On a connection that is
  already closed all \<open>N\<close> calls are without effect.
\<close>

theorem close_idempotent:
  "closeAll (e # es) c = close (Some e) c \<and>
   close err (closeAll (e # es) c) = closeAll (e # es) c \<and>
   closedFired (closeAll (e # es) c) \<and>
   (\<not> closedFired c \<longrightarrow>
      closed (closeAll (e # es) c) = 1 \<and>
      closeErr (closeAll (e # es) c) = Some (case closeErr c of None \<Rightarrow> e | Some e0 \<Rightarrow> e0) \<and>
      setCloseErr err (closeAll (e # es) c) = closeAll (e # es) c \<and>
      closeCalls (rwc (closeAll (e # es) c)) = Suc (closeCalls (rwc c)) \<and>
      tasks (closeAll (e # es) c) = tasks c @ [TaskTeardown]) \<and>
   (closedFired c \<longrightarrow> closeAll (e # es) c = c)"
proof -
  have 1: "closeAll (e # es) c = close (Some e) c"
    by (rule closeAll_Cons)
  have 2: "close err (close (Some e) c) = close (Some e) c"
    by (simp add: close_closed closedFired_close)
  have 3: "closedFired (close (Some e) c)"
    by (rule closedFired_close)
  have 4: "closed (close (Some e) c) = 1" if "\<not> closedFired c"
    using that by (simp add: close_Some_open) (simp add: closedFired_def isClosed_def)
  have 5: "closeErr (close (Some e) c) = Some (case closeErr c of None \<Rightarrow> e | Some e0 \<Rightarrow> e0)"
    if "\<not> closedFired c"
    using that by (simp add: close_Some_open split: option.splits)
  have 6: "setCloseErr err (close (Some e) c) = close (Some e) c" if "\<not> closedFired c"
    using 5 [OF that] by (simp add: setCloseErr_recorded)
  have 7: "closeCalls (rwc (close (Some e) c)) = Suc (closeCalls (rwc c))" if "\<not> closedFired c"
    using that by (simp add: close_Some_open closeCalls_rwc_Close)
  have 8: "tasks (close (Some e) c) = tasks c @ [TaskTeardown]" if "\<not> closedFired c"
    using that by (simp add: close_Some_open)
  have 9: "close (Some e) c = c" if "closedFired c"
    using that by (rule close_closed)
  show ?thesis
    unfolding 1 using 2 3 4 5 6 7 8 9 by blast
qed

lemma newConn_open: "\<not> closedFired (newConn t cfg)"
  by (simp add: newConn_def newConn_literal_def go_def closedFired_def isClosed_def Let_def)

theorem close_idempotent_witness:
  "\<not> closedFired (newConn True testConfig) \<and>
   closeAll [Canceled, DeadlineExceeded, ErrClosed] (newConn True testConfig)
     = close (Some Canceled) (newConn True testConfig) \<and>
   closed (closeAll [Canceled, DeadlineExceeded, ErrClosed] (newConn True testConfig)) = 1 \<and>
   closeErr (closeAll [Canceled, DeadlineExceeded, ErrClosed] (newConn True testConfig))
     = Some Canceled \<and>
   closeCalls (rwc (closeAll [Canceled, DeadlineExceeded, ErrClosed] (newConn True testConfig)))
     = 1 \<and>
   closedFired (close (Some Canceled) (newConn True testConfig)) \<and>
   closeAll [DeadlineExceeded, ErrClosed] (close (Some Canceled) (newConn True testConfig))
     = close (Some Canceled) (newConn True testConfig)"
proof -
  let ?c = "newConn True testConfig"
  let ?r = "closeAll [Canceled, DeadlineExceeded, ErrClosed] ?c"
  have o: "\<not> closedFired ?c" by (rule newConn_open)
  have e: "closeErr ?c = None" and n: "closeCalls (rwc ?c) = 0"
    by (simp_all add: newConn_def newConn_literal_def go_def Let_def flate_def)
  have k: "closedFired (close (Some Canceled) ?c)" by (rule closedFired_close)
  from close_idempotent [of Canceled "[DeadlineExceeded, ErrClosed]" ?c None] o
  have a: "?r = close (Some Canceled) ?c" and b: "closed ?r = 1"
    and c: "closeErr ?r = Some (case closeErr ?c of None \<Rightarrow> Canceled | Some e0 \<Rightarrow> e0)"
    and d: "closeCalls (rwc ?r) = Suc (closeCalls (rwc ?c))"
    by blast+
  from close_idempotent [of DeadlineExceeded "[ErrClosed]" "close (Some Canceled) ?c" None] k
  have f: "closeAll [DeadlineExceeded, ErrClosed] (close (Some Canceled) ?c)
             = close (Some Canceled) ?c"
    by blast
  from c e have c': "closeErr ?r = Some Canceled" by simp
  from d n have d': "closeCalls (rwc ?r) = 1" by simp
  show ?thesis using o a b c' d' k f by blast
qed

section \<open>Properties of lock\<close>

lemma get_put_mu: "get_mu m (put_mu m x c) = x"
  by (cases m) simp_all

lemma put_get_mu: "put_mu m (get_mu m c) c = c"
  by (cases m) simp_all

lemma closedFired_put_mu: "closedFired (put_mu m x c) = closedFired c"
  by (cases m) (simp_all add: closedFired_def isClosed_def)

lemma lock_success_open: "lock sel others env ctx m c = Some (None, c') \<Longrightarrow> \<not> closedFired c'"
  by (auto simp: lock_def Let_def split: lock_case.splits if_splits option.splits)

lemma lock_send_closed:
  assumes "ch (get_mu m c) = Empty"
    and "closedFired (others (put_mu m ((get_mu m c)\<lparr>ch := Full\<rparr>) c))"
  shows "lock LockSend others env ctx m c =
           Some (Some ErrClosed,
                 put_mu m (unlock (get_mu m (others (put_mu m ((get_mu m c)\<lparr>ch := Full\<rparr>) c))))
                   (others (put_mu m ((get_mu m c)\<lparr>ch := Full\<rparr>) c)))"
  using assms by (simp add: lock_def Let_def)

text \<open>
  Claim C2. No lock leak on the close race. Whatever case the outer \<^verbatim>\<open>select\<close> runs and
  whatever the other goroutines do after the send on \<^verbatim>\<open>m.ch\<close>, a call of \<open>lock\<close> that
  returns nil returns a connection whose closed signal has not fired. When the call wins
  the token (the slot was empty and the \<^verbatim>\<open>select\<close> ran the send) and the closed signal
  has fired by the time of the inner \<^verbatim>\<open>select\<close>, the call returns \<^verbatim>\<open>net.ErrClosed\<close> and
  leaves the slot empty. When the connection was closed already and the \<^verbatim>\<open>select\<close> ran
  the send all the same, the call returns \<^verbatim>\<open>net.ErrClosed\<close> and the connection as it
  found it.
\<close>

theorem lock_no_leak_on_close_race:
  "(lock sel others env ctx m c = Some (None, c') \<longrightarrow> \<not> closedFired c') \<and>
   (ch (get_mu m c) = Empty \<and> closedFired (others (put_mu m ((get_mu m c)\<lparr>ch := Full\<rparr>) c)) \<longrightarrow>
      (\<exists>c1. lock LockSend others env ctx m c = Some (Some ErrClosed, c1) \<and>
            ch (get_mu m c1) = Empty \<and> closedFired c1)) \<and>
   (ch (get_mu m c) = Empty \<and> closedFired c \<longrightarrow>
      lock LockSend id env ctx m c = Some (Some ErrClosed, c))"
proof (intro conjI impI)
  assume "lock sel others env ctx m c = Some (None, c')"
  then show "\<not> closedFired c'" by (rule lock_success_open)
next
  assume a: "ch (get_mu m c) = Empty \<and> closedFired (others (put_mu m ((get_mu m c)\<lparr>ch := Full\<rparr>) c))"
  let ?c1 = "others (put_mu m ((get_mu m c)\<lparr>ch := Full\<rparr>) c)"
  have "lock LockSend others env ctx m c = Some (Some ErrClosed, put_mu m (unlock (get_mu m ?c1)) ?c1)"
    using a by (simp add: lock_send_closed)
  moreover have "ch (get_mu m (put_mu m (unlock (get_mu m ?c1)) ?c1)) = Empty"
    by (simp add: get_put_mu ch_unlock)
  moreover have "closedFired (put_mu m (unlock (get_mu m ?c1)) ?c1)"
    using a by (simp add: closedFired_put_mu)
  ultimately show "\<exists>c1. lock LockSend others env ctx m c = Some (Some ErrClosed, c1) \<and>
            ch (get_mu m c1) = Empty \<and> closedFired c1"
    by blast
next
  assume a: "ch (get_mu m c) = Empty \<and> closedFired c"
  have "unlock ((get_mu m c)\<lparr>ch := Full\<rparr>) = get_mu m c"
    using a by (simp add: unlock_def)
  then show "lock LockSend id env ctx m c = Some (Some ErrClosed, c)"
    using a by (cases m) (simp_all add: lock_def Let_def closedFired_def isClosed_def)
qed

lemma mu_newConn: "ch (get_mu m (newConn t cfg)) = Empty"
  by (cases m) (simp_all add: newConn_def newConn_literal_def go_def Let_def newMu_def)

theorem lock_no_leak_on_close_race_witness:
  "lock LockSend id Map.empty Background WriteFrameMu (newConn True testConfig)
     = Some (None, (newConn True testConfig)\<lparr>writeFrameMu := \<lparr>ch = Full\<rparr>\<rparr>) \<and>
   \<not> closedFired ((newConn True testConfig)\<lparr>writeFrameMu := \<lparr>ch = Full\<rparr>\<rparr>) \<and>
   ch (get_mu WriteFrameMu (newConn True testConfig)) = Empty \<and>
   closedFired (close (Some Canceled)
     (put_mu WriteFrameMu ((get_mu WriteFrameMu (newConn True testConfig))\<lparr>ch := Full\<rparr>)
        (newConn True testConfig))) \<and>
   (\<exists>c1. lock LockSend (close (Some Canceled)) Map.empty Background WriteFrameMu
            (newConn True testConfig) = Some (Some ErrClosed, c1) \<and>
         ch (get_mu WriteFrameMu c1) = Empty \<and> closedFired c1) \<and>
   closedFired (close (Some Canceled) (newConn True testConfig)) \<and>
   lock LockSend id Map.empty Background WriteFrameMu (close (Some Canceled) (newConn True testConfig))
     = Some (Some ErrClosed, close (Some Canceled) (newConn True testConfig))"
proof -
  let ?c = "newConn True testConfig"
  let ?k = "close (Some Canceled) ?c"
  have o: "\<not> closedFired ?c" by (rule newConn_open)
  have e: "ch (get_mu WriteFrameMu ?c) = Empty" by (rule mu_newConn)
  have m: "get_mu WriteFrameMu ?c = \<lparr>ch = Empty\<rparr>"
    by (simp add: newConn_def newConn_literal_def go_def Let_def newMu_def)
  have s: "lock LockSend id Map.empty Background WriteFrameMu ?c
             = Some (None, ?c\<lparr>writeFrameMu := \<lparr>ch = Full\<rparr>\<rparr>)"
    using o e m by (simp add: lock_def Let_def closedFired_def isClosed_def)
  have k1: "closedFired (close (Some Canceled)
              (put_mu WriteFrameMu ((get_mu WriteFrameMu ?c)\<lparr>ch := Full\<rparr>) ?c))"
    by (rule closedFired_close)
  have k2: "closedFired ?k" by (rule closedFired_close)
  have e2: "ch (get_mu WriteFrameMu ?k) = Empty"
    using o e by (simp add: close_Some_open)
  note t1 = lock_no_leak_on_close_race
    [of LockSend id Map.empty Background WriteFrameMu ?c "?c\<lparr>writeFrameMu := \<lparr>ch = Full\<rparr>\<rparr>"]
  note t2 = lock_no_leak_on_close_race
    [of LockSend "close (Some Canceled)" Map.empty Background WriteFrameMu ?c ?c]
  note t3 = lock_no_leak_on_close_race
    [of LockSend id Map.empty Background WriteFrameMu ?k ?k]
  from t1 s have a: "\<not> closedFired (?c\<lparr>writeFrameMu := \<lparr>ch = Full\<rparr>\<rparr>)" by blast
  from t2 e k1 have b: "\<exists>c1. lock LockSend (close (Some Canceled)) Map.empty Background
       WriteFrameMu ?c = Some (Some ErrClosed, c1) \<and> ch (get_mu WriteFrameMu c1) = Empty \<and>
       closedFired c1"
    by blast
  from t3 e2 k2 have c: "lock LockSend id Map.empty Background WriteFrameMu ?k
       = Some (Some ErrClosed, ?k)"
    by blast
  show ?thesis using s a e k1 b k2 c by blast
qed

section \<open>Cancellation\<close>

lemma closedFired_ping_unregister: "closedFired (ping_unregister p c) = closedFired c"
  by (simp add: ping_unregister_def closedFired_def isClosed_def)

lemma closeErr_ping_unregister: "closeErr (ping_unregister p c) = closeErr c"
  by (simp add: ping_unregister_def)

lemma lock_cancelled:
  "ctxErr env ctx = Some e \<Longrightarrow>
     lock LockCtxDone others env ctx m c =
       Some (Some (Errorf ''failed to acquire lock: '' e),
             close (Some (Errorf ''failed to acquire lock: '' e)) c)"
  by (simp add: lock_def Let_def)

lemma ping_wait_cancelled:
  "ctxErr env ctx = Some e \<Longrightarrow>
     ping_wait PingCtxDone env ctx pong c =
       Some (Some (Errorf ''failed to wait for pong: '' e),
             close (Some (Errorf ''failed to wait for pong: '' e)) c)"
  by (simp add: ping_wait_def Let_def)

lemma ping_sent:
  "writeControl ctx opPing p (snd (ping_register p c)) = (None, c2) \<Longrightarrow>
     ping writeControl sel env ctx p c =
       (case ping_wait sel env ctx (fst (ping_register p c)) c2 of
          None \<Rightarrow> None
        | Some (r, c3) \<Rightarrow> Some (r, ping_unregister p c3))"
  by (cases "ping_register p c") (simp add: ping_def)

lemma lock_error_closed:
  "lock sel others env ctx m c = Some (Some err, c') \<Longrightarrow> closedFired c'"
  by (auto simp: lock_def Let_def closedFired_close closedFired_put_mu
      split: lock_case.splits if_splits option.splits)

lemma ping_wait_error_closed:
  "ping_wait sel env ctx pong c = Some (Some err, c') \<Longrightarrow> closedFired c'"
  by (auto simp: ping_wait_def Let_def closedFired_close
      split: ping_case.splits if_splits option.splits)

text \<open>
  Claim C3 as stated fails: a cancellation that has fired does not make the call close
  the connection when the \<^verbatim>\<open>select\<close> runs another case that is ready. With the context
  cancelled, the write mutex free and the connection open, the \<^verbatim>\<open>select\<close> of \<open>lock\<close> may
  run the send on \<^verbatim>\<open>m.ch\<close>: the call returns nil with the token held and the connection
  open. With the context cancelled and the pong already in its channel, the \<^verbatim>\<open>select\<close>
  of \<open>ping\<close> may run the receive from \<^verbatim>\<open>pong\<close>: the wait returns nil and the connection
  stays open.
\<close>

theorem cancellation_closes_connection_counterexample:
  "ctxErr allCanceled (Ctx 7) = Some Canceled \<and>
   lock LockSend id allCanceled (Ctx 7) WriteFrameMu (newConn True testConfig)
     = Some (None, (newConn True testConfig)\<lparr>writeFrameMu := \<lparr>ch = Full\<rparr>\<rparr>) \<and>
   \<not> closedFired ((newConn True testConfig)\<lparr>writeFrameMu := \<lparr>ch = Full\<rparr>\<rparr>) \<and>
   ping_wait PingPong allCanceled (Ctx 7) 0 ((newConn True testConfig)\<lparr>chans := [Full]\<rparr>)
     = Some (None, (newConn True testConfig)\<lparr>chans := [Empty]\<rparr>) \<and>
   \<not> closedFired ((newConn True testConfig)\<lparr>chans := [Empty]\<rparr>)"
  by (simp add: allCanceled_def lock_def ping_wait_def closedFired_def newConn_def
      newConn_literal_def go_def newMu_def Let_def)

text \<open>
  Claim C3, amended. For every operation that waits under a caller-supplied cancellation
  (mutex acquire, ping's wait for pong), if the cancellation has fired and the \<^verbatim>\<open>select\<close>
  of the operation runs its cancellation case, the operation closes the whole connection
  carrying the cancellation's cause and returns the cancellation error; a call that
  returns an error never leaves the connection open. In detail: take a context that is
  done, with error \<open>e\<close>. When the \<^verbatim>\<open>select\<close> of \<open>lock\<close> runs its cancellation case,
  the call returns the error that wraps \<open>e\<close> and the connection is the result of
  \<open>close\<close> with that error: it is closed, and its close error is that error when the
  connection was open with no close error recorded (a connection that was closed, or had
  an error recorded, keeps the one it had). The same holds for \<open>ping\<close> once
  \<^verbatim>\<open>writeControl\<close> has returned nil and the \<^verbatim>\<open>select\<close> that waits for the pong runs its
  cancellation case. Every error that \<open>lock\<close> or the wait of \<open>ping\<close> returns comes
  with a closed connection.
\<close>

theorem cancellation_closes_connection:
  assumes "ctxErr env ctx = Some e"
  shows
    "lock LockCtxDone others env ctx m c =
       Some (Some (Errorf ''failed to acquire lock: '' e),
             close (Some (Errorf ''failed to acquire lock: '' e)) c) \<and>
     closedFired (close (Some (Errorf ''failed to acquire lock: '' e)) c) \<and>
     closeErr (close (Some (Errorf ''failed to acquire lock: '' e)) c) =
       (if closedFired c then closeErr c
        else case closeErr c of
               None \<Rightarrow> Some (Errorf ''failed to acquire lock: '' e)
             | Some e0 \<Rightarrow> Some e0) \<and>
     (writeControl ctx opPing p (snd (ping_register p c)) = (None, c2) \<longrightarrow>
        ping writeControl PingCtxDone env ctx p c =
          Some (Some (Errorf ''failed to wait for pong: '' e),
                ping_unregister p (close (Some (Errorf ''failed to wait for pong: '' e)) c2)) \<and>
        closedFired (ping_unregister p (close (Some (Errorf ''failed to wait for pong: '' e)) c2)) \<and>
        closeErr (ping_unregister p (close (Some (Errorf ''failed to wait for pong: '' e)) c2)) =
          (if closedFired c2 then closeErr c2
           else case closeErr c2 of
                  None \<Rightarrow> Some (Errorf ''failed to wait for pong: '' e)
                | Some e0 \<Rightarrow> Some e0)) \<and>
     (lock sel others env ctx m c = Some (Some err, c') \<longrightarrow> closedFired c') \<and>
     (ping_wait sel' env ctx pong c = Some (Some err, c') \<longrightarrow> closedFired c')"
proof (intro conjI impI)
  show "lock LockCtxDone others env ctx m c =
       Some (Some (Errorf ''failed to acquire lock: '' e),
             close (Some (Errorf ''failed to acquire lock: '' e)) c)"
    using assms by (rule lock_cancelled)
  show "closedFired (close (Some (Errorf ''failed to acquire lock: '' e)) c)"
    by (rule closedFired_close)
  show "closeErr (close (Some (Errorf ''failed to acquire lock: '' e)) c) =
       (if closedFired c then closeErr c
        else case closeErr c of
               None \<Rightarrow> Some (Errorf ''failed to acquire lock: '' e)
             | Some e0 \<Rightarrow> Some e0)"
    by (rule closeErr_close_Some)
next
  assume w: "writeControl ctx opPing p (snd (ping_register p c)) = (None, c2)"
  show "ping writeControl PingCtxDone env ctx p c =
          Some (Some (Errorf ''failed to wait for pong: '' e),
                ping_unregister p (close (Some (Errorf ''failed to wait for pong: '' e)) c2))"
    using assms ping_sent [of writeControl ctx p c c2 PingCtxDone env, OF w]
    by (simp add: ping_wait_cancelled)
  show "closedFired (ping_unregister p (close (Some (Errorf ''failed to wait for pong: '' e)) c2))"
    by (simp add: closedFired_ping_unregister closedFired_close)
  show "closeErr (ping_unregister p (close (Some (Errorf ''failed to wait for pong: '' e)) c2)) =
          (if closedFired c2 then closeErr c2
           else case closeErr c2 of
                  None \<Rightarrow> Some (Errorf ''failed to wait for pong: '' e)
                | Some e0 \<Rightarrow> Some e0)"
    by (simp only: closeErr_ping_unregister closeErr_close_Some)
next
  assume "lock sel others env ctx m c = Some (Some err, c')"
  then show "closedFired c'" by (rule lock_error_closed)
next
  assume "ping_wait sel' env ctx pong c = Some (Some err, c')"
  then show "closedFired c'" by (rule ping_wait_error_closed)
qed

theorem cancellation_closes_connection_witness:
  "ctxErr [7 \<mapsto> Canceled] (Ctx 7) = Some Canceled \<and>
   \<not> closedFired (newConn True testConfig) \<and>
   lock LockCtxDone id [7 \<mapsto> Canceled] (Ctx 7) WriteFrameMu (newConn True testConfig) =
     Some (Some (Errorf ''failed to acquire lock: '' Canceled),
           close (Some (Errorf ''failed to acquire lock: '' Canceled)) (newConn True testConfig)) \<and>
   closedFired (close (Some (Errorf ''failed to acquire lock: '' Canceled)) (newConn True testConfig)) \<and>
   closeErr (close (Some (Errorf ''failed to acquire lock: '' Canceled)) (newConn True testConfig))
     = Some (Errorf ''failed to acquire lock: '' Canceled) \<and>
   (\<lambda>ctx op p c. (None, c)) (Ctx 7) opPing ''1'' (snd (ping_register ''1'' (newConn True testConfig)))
     = (None, snd (ping_register ''1'' (newConn True testConfig))) \<and>
   ping (\<lambda>ctx op p c. (None, c)) PingCtxDone [7 \<mapsto> Canceled] (Ctx 7) ''1'' (newConn True testConfig) =
     Some (Some (Errorf ''failed to wait for pong: '' Canceled),
           ping_unregister ''1'' (close (Some (Errorf ''failed to wait for pong: '' Canceled))
             (snd (ping_register ''1'' (newConn True testConfig))))) \<and>
   closedFired (ping_unregister ''1'' (close (Some (Errorf ''failed to wait for pong: '' Canceled))
             (snd (ping_register ''1'' (newConn True testConfig))))) \<and>
   ping_wait PingCtxDone [7 \<mapsto> Canceled] (Ctx 7) 0 (newConn True testConfig) =
     Some (Some (Errorf ''failed to wait for pong: '' Canceled),
           close (Some (Errorf ''failed to wait for pong: '' Canceled)) (newConn True testConfig)) \<and>
   closedFired (close (Some (Errorf ''failed to wait for pong: '' Canceled)) (newConn True testConfig))"
proof -
  let ?c = "newConn True testConfig"
  let ?env = "[7 \<mapsto> Canceled] :: ctxenv"
  let ?wc = "\<lambda>(ctx::context) (op::opcode) (p::string) (c::Conn). (None :: error option, c)"
  have h: "ctxErr ?env (Ctx 7) = Some Canceled" by simp
  have o: "\<not> closedFired ?c" by (rule newConn_open)
  have n: "closeErr ?c = None"
    by (simp add: newConn_def newConn_literal_def go_def Let_def)
  have w: "?wc (Ctx 7) opPing ''1'' (snd (ping_register ''1'' ?c))
             = (None, snd (ping_register ''1'' ?c))"
    by simp
  note t = cancellation_closes_connection
    [OF h, of id WriteFrameMu ?c ?wc "''1''" "snd (ping_register ''1'' ?c)" LockCtxDone
       "Errorf ''failed to acquire lock: '' Canceled"
       "close (Some (Errorf ''failed to acquire lock: '' Canceled)) ?c" PingCtxDone 0]
  from t have a: "lock LockCtxDone id ?env (Ctx 7) WriteFrameMu ?c =
     Some (Some (Errorf ''failed to acquire lock: '' Canceled),
           close (Some (Errorf ''failed to acquire lock: '' Canceled)) ?c)"
    and c: "closeErr (close (Some (Errorf ''failed to acquire lock: '' Canceled)) ?c) =
       (if closedFired ?c then closeErr ?c
        else case closeErr ?c of
               None \<Rightarrow> Some (Errorf ''failed to acquire lock: '' Canceled)
             | Some e0 \<Rightarrow> Some e0)"
    by blast+
  from t a have b: "closedFired (close (Some (Errorf ''failed to acquire lock: '' Canceled)) ?c)"
    by blast
  from c o n have c': "closeErr (close (Some (Errorf ''failed to acquire lock: '' Canceled)) ?c)
     = Some (Errorf ''failed to acquire lock: '' Canceled)"
    by simp
  from t w have d: "ping ?wc PingCtxDone ?env (Ctx 7) ''1'' ?c =
     Some (Some (Errorf ''failed to wait for pong: '' Canceled),
           ping_unregister ''1'' (close (Some (Errorf ''failed to wait for pong: '' Canceled))
             (snd (ping_register ''1'' ?c))))"
    and f: "closedFired (ping_unregister ''1'' (close (Some (Errorf ''failed to wait for pong: '' Canceled))
             (snd (ping_register ''1'' ?c))))"
    by blast+
  have pw: "ping_wait PingCtxDone ?env (Ctx 7) 0 ?c =
     Some (Some (Errorf ''failed to wait for pong: '' Canceled),
           close (Some (Errorf ''failed to wait for pong: '' Canceled)) ?c)"
    by (simp add: ping_wait_def Let_def)
  from cancellation_closes_connection
    [OF h, of id WriteFrameMu ?c ?wc "''1''" "snd (ping_register ''1'' ?c)" LockCtxDone
       "Errorf ''failed to wait for pong: '' Canceled"
       "close (Some (Errorf ''failed to wait for pong: '' Canceled)) ?c" PingCtxDone 0] pw
  have pc: "closedFired (close (Some (Errorf ''failed to wait for pong: '' Canceled)) ?c)"
    by blast
  show ?thesis using h o a b c' w d f pw pc by blast
qed

section \<open>Properties of the deadline watchdog\<close>













section \<open>Properties of ping\<close>

lemma activePings_ping_register:
  "activePings (snd (ping_register p c)) p = Some (fst (ping_register p c))"
  by (simp add: ping_register_def Let_def)

lemma fst_ping_register: "fst (ping_register p c) = length (chans c)"
  by (simp add: ping_register_def Let_def)

lemma activePings_ping_unregister: "activePings (ping_unregister p c) p = None"
  by (simp add: ping_unregister_def)

lemma ping_Some_unregistered:
  "ping writeControl sel env ctx p c = Some (r, c') \<Longrightarrow> activePings c' p = None"
  by (cases "ping_register p c")
     (auto simp: ping_def activePings_ping_unregister split: option.splits prod.splits)

lemma ping_writeControl_cong:
  assumes "\<And>c1. activePings c1 p = Some (length (chans c)) \<Longrightarrow>
             writeControl ctx opPing p c1 = writeControl' ctx opPing p c1"
  shows "ping writeControl sel env ctx p c = ping writeControl' sel env ctx p c"
proof -
  have "activePings (snd (ping_register p c)) p = Some (length (chans c))"
    by (simp add: activePings_ping_register fst_ping_register)
  then have "writeControl ctx opPing p (snd (ping_register p c))
               = writeControl' ctx opPing p (snd (ping_register p c))"
    by (rule assms)
  then show ?thesis
    by (cases "ping_register p c") (simp add: ping_def)
qed

lemma ping_send_failed:
  "writeControl ctx opPing p (snd (ping_register p c)) = (Some err, c2) \<Longrightarrow>
     ping writeControl sel env ctx p c = Some (Some err, ping_unregister p c2)"
  by (cases "ping_register p c") (simp add: ping_def)

text \<open>
  Claim C6. Hygiene of the ping tracker. The ping frame is sent by \<^verbatim>\<open>writeControl\<close>, and
  \<open>ping\<close> calls it on a connection in which the payload is registered to the new
  channel: two behaviours of \<^verbatim>\<open>writeControl\<close> that agree on every connection where the
  payload is registered to that channel give the same \<open>ping\<close>, so what \<^verbatim>\<open>writeControl\<close>
  would do without the registration never matters. Whenever \<open>ping\<close> returns, by any
  path (the pong was received, the connection was closed, the context was cancelled, or
  \<^verbatim>\<open>writeControl\<close> failed, in which case its error is the result), the payload is no
  longer in the tracker.
\<close>

theorem ping_tracker_hygiene:
  "((\<forall>c1. activePings c1 p = Some (length (chans c)) \<longrightarrow>
          writeControl ctx opPing p c1 = writeControl' ctx opPing p c1) \<longrightarrow>
      ping writeControl sel env ctx p c = ping writeControl' sel env ctx p c) \<and>
   (ping writeControl sel env ctx p c = Some (r, c') \<longrightarrow> activePings c' p = None) \<and>
   (writeControl ctx opPing p (snd (ping_register p c)) = (Some err, c2) \<longrightarrow>
      ping writeControl sel env ctx p c = Some (Some err, ping_unregister p c2))"
  using ping_writeControl_cong [of p c writeControl ctx writeControl' sel env]
    ping_Some_unregistered [of writeControl sel env ctx p c r c']
    ping_send_failed [of writeControl ctx p c err c2 sel env]
  by blast

theorem ping_tracker_hygiene_witness:
  "ping (\<lambda>ctx op p c. (None, c)) PingPong Map.empty Background ''1'' (newConn True testConfig) =
   ping (\<lambda>ctx op p c. if activePings c p = None then (Some ErrClosed, c) else (None, c))
     PingPong Map.empty Background ''1'' (newConn True testConfig) \<and>
   (\<exists>c'. ping (\<lambda>ctx op p c. (None, c\<lparr>chans := (chans c)[0 := Full]\<rparr>)) PingPong Map.empty
            Background ''1'' (newConn True testConfig) = Some (None, c') \<and>
         activePings c' ''1'' = None) \<and>
   (\<exists>c'. ping (\<lambda>ctx op p c. (None, c)) PingCtxDone [7 \<mapsto> Canceled] (Ctx 7) ''1''
            (newConn True testConfig)
            = Some (Some (Errorf ''failed to wait for pong: '' Canceled), c') \<and>
         activePings c' ''1'' = None) \<and>
   (\<exists>c'. ping (\<lambda>ctx op p c. (None, close (Some Canceled) c)) PingClosed Map.empty Background ''1''
            (newConn True testConfig) = Some (Some ErrClosed, c') \<and>
         activePings c' ''1'' = None) \<and>
   ping (\<lambda>ctx op p c. (Some DeadlineExceeded, c)) PingPong Map.empty Background ''1''
       (newConn True testConfig)
     = Some (Some DeadlineExceeded,
             ping_unregister ''1'' (snd (ping_register ''1'' (newConn True testConfig)))) \<and>
   activePings (ping_unregister ''1'' (snd (ping_register ''1'' (newConn True testConfig)))) ''1''
     = None"
proof -
  let ?c = "newConn True testConfig"
  let ?ok = "\<lambda>(ctx::context) (op::opcode) (p::string) (c::Conn). (None :: error option, c)"
  let ?odd = "\<lambda>(ctx::context) (op::opcode) (p::string) (c::Conn).
                if activePings c p = None then (Some ErrClosed, c) else (None, c)"
  let ?pong = "\<lambda>(ctx::context) (op::opcode) (p::string) (c::Conn).
                (None :: error option, c\<lparr>chans := (chans c)[0 := Full]\<rparr>)"
  let ?cl = "\<lambda>(ctx::context) (op::opcode) (p::string) (c::Conn).
                (None :: error option, close (Some Canceled) c)"
  let ?fail = "\<lambda>(ctx::context) (op::opcode) (p::string) (c::Conn). (Some DeadlineExceeded, c)"
  have ch0: "chans ?c = []"
    by (simp add: newConn_def newConn_literal_def go_def Let_def)
  have agree: "\<forall>c1::Conn. activePings c1 ''1'' = Some (length (chans ?c)) \<longrightarrow>
      ?ok Background opPing ''1'' c1 = ?odd Background opPing ''1'' c1"
    by simp
  from ping_tracker_hygiene [of "''1''" ?c ?ok Background ?odd PingPong Map.empty] agree
  have a: "ping ?ok PingPong Map.empty Background ''1'' ?c
             = ping ?odd PingPong Map.empty Background ''1'' ?c"
    by blast
  have "\<exists>c'. ping ?pong PingPong Map.empty Background ''1'' ?c = Some (None, c')"
    by (simp add: ping_def ping_register_def ping_wait_def Let_def ch0)
  then obtain c1 where b1: "ping ?pong PingPong Map.empty Background ''1'' ?c = Some (None, c1)"
    by blast
  from ping_tracker_hygiene [of "''1''" ?c ?pong Background ?pong PingPong Map.empty None c1] b1
  have b2: "activePings c1 ''1'' = None" by blast
  have "\<exists>c'. ping ?ok PingCtxDone [7 \<mapsto> Canceled] (Ctx 7) ''1'' ?c
            = Some (Some (Errorf ''failed to wait for pong: '' Canceled), c')"
    by (simp add: ping_def ping_register_def ping_wait_def Let_def)
  then obtain c2 where d1: "ping ?ok PingCtxDone [7 \<mapsto> Canceled] (Ctx 7) ''1'' ?c
            = Some (Some (Errorf ''failed to wait for pong: '' Canceled), c2)"
    by blast
  from ping_tracker_hygiene [of "''1''" ?c ?ok "Ctx 7" ?ok PingCtxDone "[7 \<mapsto> Canceled]"
      "Some (Errorf ''failed to wait for pong: '' Canceled)" c2] d1
  have d2: "activePings c2 ''1'' = None" by blast
  have "\<exists>c'. ping ?cl PingClosed Map.empty Background ''1'' ?c = Some (Some ErrClosed, c')"
    by (simp add: ping_def ping_register_def ping_wait_def Let_def closedFired_close)
  then obtain c3 where e1: "ping ?cl PingClosed Map.empty Background ''1'' ?c
      = Some (Some ErrClosed, c3)"
    by blast
  from ping_tracker_hygiene [of "''1''" ?c ?cl Background ?cl PingClosed Map.empty
      "Some ErrClosed" c3] e1
  have e2: "activePings c3 ''1'' = None" by blast
  have w: "?fail Background opPing ''1'' (snd (ping_register ''1'' ?c))
             = (Some DeadlineExceeded, snd (ping_register ''1'' ?c))"
    by simp
  from ping_tracker_hygiene [of "''1''" ?c ?fail Background ?fail PingPong Map.empty
      "Some DeadlineExceeded" "ping_unregister ''1'' (snd (ping_register ''1'' ?c))"
      DeadlineExceeded "snd (ping_register ''1'' ?c)"] w
  have f1: "ping ?fail PingPong Map.empty Background ''1'' ?c
     = Some (Some DeadlineExceeded, ping_unregister ''1'' (snd (ping_register ''1'' ?c)))"
    and f2: "activePings (ping_unregister ''1'' (snd (ping_register ''1'' ?c))) ''1'' = None"
    by blast+
  from b1 b2 have b: "\<exists>c'. ping ?pong PingPong Map.empty Background ''1'' ?c = Some (None, c') \<and>
      activePings c' ''1'' = None"
    by blast
  from d1 d2 have d: "\<exists>c'. ping ?ok PingCtxDone [7 \<mapsto> Canceled] (Ctx 7) ''1'' ?c
            = Some (Some (Errorf ''failed to wait for pong: '' Canceled), c') \<and>
      activePings c' ''1'' = None"
    by blast
  from e1 e2 have e: "\<exists>c'. ping ?cl PingClosed Map.empty Background ''1'' ?c
      = Some (Some ErrClosed, c') \<and> activePings c' ''1'' = None"
    by blast
  show ?thesis
    by (intro conjI) (rule a b d e f1 f2)+
qed

section \<open>Properties of the constructor\<close>

lemma flateThreshold_go: "flateThreshold (go t c) = flateThreshold c"
  by (simp add: go_def)

lemma flateThreshold_newConn:
  "flateThreshold (newConn takeover cfg) =
     (if cfg_copts cfg \<noteq> None \<and> cfg_flateThreshold cfg = 0
      then (if takeover then 128 else 512)
      else cfg_flateThreshold cfg)"
  by (simp add: newConn_def newConn_literal_def flate_def Let_def flateThreshold_go)

text \<open>
  Claim C8 as stated fails: a configuration without compression options whose threshold
  is 0 keeps the threshold 0, whatever the frame writer says about context takeover.
\<close>

theorem newConn_flateThreshold_counterexample:
  "cfg_flateThreshold testConfig = 0 \<and>
   flateThreshold (newConn True testConfig) = 0 \<and>
   flateThreshold (newConn True testConfig) \<noteq> 128 \<and>
   flateThreshold (newConn False testConfig) = 0 \<and>
   flateThreshold (newConn False testConfig) \<noteq> 512"
  by (simp add: flateThreshold_newConn)

text \<open>
  Claim C8, amended. For every connection configuration with compression enabled (the
  compression options are present) whose compression threshold is 0, the constructor
  sets the threshold to 128 bytes if the frame writer supports context takeover and to
  512 bytes otherwise.
\<close>

theorem newConn_flateThreshold_default:
  "cfg_copts cfg \<noteq> None \<Longrightarrow> cfg_flateThreshold cfg = 0 \<Longrightarrow>
     flateThreshold (newConn takeover cfg) = (if takeover then 128 else 512)"
  by (simp add: flateThreshold_newConn)

theorem newConn_flateThreshold_default_witness:
  "cfg_copts (testConfig\<lparr>cfg_copts := Some CompressionOptions\<rparr>) \<noteq> None \<and>
   cfg_flateThreshold (testConfig\<lparr>cfg_copts := Some CompressionOptions\<rparr>) = 0 \<and>
   flateThreshold (newConn True (testConfig\<lparr>cfg_copts := Some CompressionOptions\<rparr>)) = 128 \<and>
   flateThreshold (newConn False (testConfig\<lparr>cfg_copts := Some CompressionOptions\<rparr>)) = 512"
  using newConn_flateThreshold_default [of "testConfig\<lparr>cfg_copts := Some CompressionOptions\<rparr>" True]
    newConn_flateThreshold_default [of "testConfig\<lparr>cfg_copts := Some CompressionOptions\<rparr>" False]
  by simp

section \<open>Payloads of Ping\<close>

declare digits.simps [simp del]

lemma digits_numeral:
  "digits (numeral k) =
     (if (numeral k :: nat) < 10 then [digit (numeral k)]
      else digits (numeral k div 10) @ [digit (numeral k mod 10)])"
  by (rule digits.simps)

lemma digits_small: "n < 10 \<Longrightarrow> digits n = [digit n]"
  by (simp add: digits.simps)

lemma lt10_cases: "d < 10 \<Longrightarrow> d \<in> {0, 1, 2, 3, 4, 5, 6, 7, 8, 9 :: nat}"
  by auto

lemma digit_val_digit: "d < 10 \<Longrightarrow> digit_val (digit d) = d"
  using lt10_cases [of d] by (auto simp: digit_def digit_val_def)

lemma digit_not_minus: "d < 10 \<Longrightarrow> digit d \<noteq> CHR ''-''"
  using lt10_cases [of d] by (auto simp: digit_def)

lemma undigits_digits: "undigits (digits n) = n"
proof (induction n rule: digits.induct)
  case (1 n)
  show ?case
  proof (cases "n < 10")
    case True
    then show ?thesis by (simp add: digits_small undigits_def digit_val_digit)
  next
    case False
    have "undigits (digits n) = 10 * undigits (digits (n div 10)) + digit_val (digit (n mod 10))"
      using False by (subst digits.simps) (simp add: undigits_def)
    also have "\<dots> = 10 * (n div 10) + n mod 10"
      using False "1.IH" by (simp add: digit_val_digit)
    finally show ?thesis by simp
  qed
qed

lemma digits_inj: "digits n = digits m \<Longrightarrow> n = m"
  by (metis undigits_digits)

lemma hd_digits: "hd (digits n) \<noteq> CHR ''-''"
proof (induction n rule: digits.induct)
  case (1 n)
  show ?case
  proof (cases "n < 10")
    case True
    then show ?thesis by (simp add: digits_small digit_not_minus)
  next
    case False
    have ne: "digits (n div 10) \<noteq> []"
      by (subst digits.simps) simp
    have "hd (digits n) = hd (digits (n div 10))"
      using False ne by (subst digits.simps) simp
    then show ?thesis using False "1.IH" by simp
  qed
qed

lemma digits_not_minus: "digits n \<noteq> CHR ''-'' # s"
  using hd_digits [of n] by (cases "digits n") auto

lemma Itoa_inj: "Itoa i = Itoa j \<Longrightarrow> i = j"
proof -
  assume eq: "Itoa i = Itoa j"
  show "i = j"
  proof (cases "i < 0")
    case True
    note i = this
    show ?thesis
    proof (cases "j < 0")
      case True
      with i eq have "digits (nat (- i)) = digits (nat (- j))" by (simp add: Itoa_def)
      then have "nat (- i) = nat (- j)" by (rule digits_inj)
      with i True show ?thesis by simp
    next
      case False
      with i eq have "digits (nat j) = CHR ''-'' # digits (nat (- i))" by (simp add: Itoa_def)
      then show ?thesis by (simp add: digits_not_minus)
    qed
  next
    case False
    note i = this
    show ?thesis
    proof (cases "j < 0")
      case True
      with i eq have "digits (nat i) = CHR ''-'' # digits (nat (- j))" by (simp add: Itoa_def)
      then show ?thesis by (simp add: digits_not_minus)
    next
      case False
      with i eq have "digits (nat i) = digits (nat j)" by (simp add: Itoa_def)
      then have "nat i = nat j" by (rule digits_inj)
      with i False show ?thesis by simp
    qed
  qed
qed

lemma Ping_payload_eq:
  "Ping_payload c = (Itoa (sint (pingCounter c + 1)), c\<lparr>pingCounter := pingCounter c + 1\<rparr>)"
  by (simp add: Ping_payload_def AddInt32_pingCounter_def)

lemma Ping_payloads_map:
  "Ping_payloads n c = map (\<lambda>k. Itoa (sint (pingCounter c + word_of_nat (Suc k)))) [0..<n]"
proof (induction n arbitrary: c)
  case 0
  then show ?case by simp
next
  case (Suc n)
  have "Ping_payloads (Suc n) c =
          Itoa (sint (pingCounter c + 1)) # Ping_payloads n (c\<lparr>pingCounter := pingCounter c + 1\<rparr>)"
    by (simp add: Ping_payload_eq)
  also have "\<dots> = Itoa (sint (pingCounter c + 1)) #
                  map (\<lambda>k. Itoa (sint (pingCounter c + 1 + word_of_nat (Suc k)))) [0..<n]"
    by (simp add: Suc.IH)
  also have "\<dots> = map (\<lambda>k. Itoa (sint (pingCounter c + word_of_nat (Suc k)))) (0 # map Suc [0..<n])"
    by (simp add: ac_simps)
  also have "0 # map Suc [0..<n] = [0..<Suc n]"
    by (simp add: map_Suc_upt upt_conv_Cons del: upt_Suc)
  finally show ?case .
qed

lemma sint_eq_iff: "(sint a = sint b) = (a = b)" for a b :: "32 word"
  by (auto intro: signed_word_eqI)

lemma payload_eq_iff:
  "(Itoa (sint (w + word_of_nat (Suc k) :: 32 word)) = Itoa (sint (w + word_of_nat (Suc k'))))
     = (k mod 2 ^ 32 = k' mod 2 ^ 32)"
proof -
  have "(Itoa (sint (w + word_of_nat (Suc k))) = Itoa (sint (w + word_of_nat (Suc k'))))
          = (sint (w + word_of_nat (Suc k)) = sint (w + word_of_nat (Suc k')))"
    by (auto dest: Itoa_inj)
  also have "\<dots> = (w + word_of_nat (Suc k) = w + word_of_nat (Suc k'))"
    by (rule sint_eq_iff)
  also have "\<dots> = ((word_of_nat k :: 32 word) = word_of_nat k')"
    by simp
  also have "\<dots> = (k mod 2 ^ 32 = k' mod 2 ^ 32)"
    by (simp add: word_of_nat_eq_iff take_bit_eq_mod)
  finally show ?thesis .
qed

lemma Ping_payloads_nth:
  "k < n \<Longrightarrow> Ping_payloads n c ! k = Itoa (sint (pingCounter c + word_of_nat (Suc k)))"
  by (simp add: Ping_payloads_map del: of_nat_Suc)

lemma Ping_payloads_nth_eq_iff:
  "k < n \<Longrightarrow> k' < n \<Longrightarrow>
     (Ping_payloads n c ! k = Ping_payloads n c ! k') = (k mod 2 ^ 32 = k' mod 2 ^ 32)"
  by (simp only: Ping_payloads_nth payload_eq_iff)

lemma distinct_Ping_payloads: "distinct (Ping_payloads n c) = (n \<le> 2 ^ 32)"
proof
  assume d: "distinct (Ping_payloads n c)"
  show "n \<le> 2 ^ 32"
  proof (rule ccontr)
    assume "\<not> n \<le> 2 ^ 32"
    then have a: "0 < n" and b: "(2 ^ 32 :: nat) < n" by simp_all
    have "Ping_payloads n c ! 0 = Ping_payloads n c ! (2 ^ 32)"
      using a b by (simp only: Ping_payloads_nth_eq_iff) simp
    moreover have "length (Ping_payloads n c) = n"
      by (simp add: Ping_payloads_map)
    ultimately have "(0 :: nat) = 2 ^ 32"
      using d a b by (simp only: nth_eq_iff_index_eq)
    then show False by simp
  qed
next
  assume n: "n \<le> 2 ^ 32"
  have "inj_on (\<lambda>k. Itoa (sint (pingCounter c + word_of_nat (Suc k)))) {0..<n}"
  proof (rule inj_onI)
    fix k k'
    assume k: "k \<in> {0..<n}" and k': "k' \<in> {0..<n}"
      and eq: "Itoa (sint (pingCounter c + word_of_nat (Suc k)))
                 = Itoa (sint (pingCounter c + word_of_nat (Suc k')))"
    from eq have "k mod 2 ^ 32 = k' mod 2 ^ 32" by (simp only: payload_eq_iff)
    moreover from k k' n have "k < 2 ^ 32" "k' < 2 ^ 32" by simp_all
    ultimately show "k = k'" by simp
  qed
  then show "distinct (Ping_payloads n c)"
    by (simp add: Ping_payloads_map distinct_map del: of_nat_Suc)
qed

lemma Ping_eq:
  "Ping writeControl sel env ctx c =
     (case ping writeControl sel env ctx (Itoa (sint (pingCounter c + 1)))
             (c\<lparr>pingCounter := pingCounter c + 1\<rparr>) of
        None \<Rightarrow> None
      | Some (Some err, c') \<Rightarrow> Some (Some (Errorf ''failed to ping: '' err), c')
      | Some (None, c') \<Rightarrow> Some (None, c'))"
  by (simp add: Ping_def Ping_payload_eq)

lemma Ping_payloads_wrap:
  assumes "pingCounter c = 0" and "2 ^ 31 \<le> n"
  shows "Ping_payloads n c ! 2147483646 = ''2147483647''"
    and "Ping_payloads n c ! 2147483647 = ''-2147483648''"
proof -
  from assms(2) have a: "2147483646 < n" and b: "2147483647 < n" by simp_all
  show "Ping_payloads n c ! 2147483646 = ''2147483647''"
    by (simp add: Ping_payloads_nth [OF a] assms(1) Itoa_def digits_numeral digits_small digit_def)
  show "Ping_payloads n c ! 2147483647 = ''-2147483648''"
    by (simp add: Ping_payloads_nth [OF b] assms(1) Itoa_def digits_numeral digits_small digit_def)
qed

text \<open>
  Claim C10. The payloads of \<^verbatim>\<open>Ping\<close>. \<^verbatim>\<open>Ping\<close> adds one to the 32-bit counter and
  calls \<open>ping\<close> with the signed value of the new counter in decimal. So the payloads of
  \<open>n\<close> calls, in the order of their increments, are the decimal signed values of
  counter + 1, ..., counter + n, computed modulo \<open>2 ^ 32\<close>. Starting from 0, the call
  number \<open>2 ^ 31 - 1\<close> gets 2147483647 and the next one wraps to -2147483648. Two of the
  \<open>n\<close> calls get the same payload exactly when their positions differ by a multiple of
  \<open>2 ^ 32\<close>, so the payloads of \<open>n\<close> calls are pairwise distinct exactly when
  \<open>n \<le> 2 ^ 32\<close>: a payload is unique among the outstanding pings until the counter has
  come round to the value of a ping that is still outstanding.
\<close>

theorem Ping_payload_counter_wraps:
  "Ping writeControl sel env ctx c =
     (case ping writeControl sel env ctx (Itoa (sint (pingCounter c + 1)))
             (c\<lparr>pingCounter := pingCounter c + 1\<rparr>) of
        None \<Rightarrow> None
      | Some (Some err, c') \<Rightarrow> Some (Some (Errorf ''failed to ping: '' err), c')
      | Some (None, c') \<Rightarrow> Some (None, c')) \<and>
   Ping_payloads n c = map (\<lambda>k. Itoa (sint (pingCounter c + word_of_nat (Suc k)))) [0..<n] \<and>
   (pingCounter c = 0 \<and> 2 ^ 31 \<le> n \<longrightarrow>
      Ping_payloads n c ! 2147483646 = ''2147483647'' \<and>
      Ping_payloads n c ! 2147483647 = ''-2147483648'') \<and>
   (\<forall>k<n. \<forall>k'<n.
      (Ping_payloads n c ! k = Ping_payloads n c ! k') = (k mod 2 ^ 32 = k' mod 2 ^ 32)) \<and>
   distinct (Ping_payloads n c) = (n \<le> 2 ^ 32)"
  using Ping_eq [of writeControl sel env ctx c] Ping_payloads_map [of n c]
    Ping_payloads_wrap [of c n] Ping_payloads_nth_eq_iff [of _ n _ c]
    distinct_Ping_payloads [of n c]
  by blast

theorem Ping_payload_counter_wraps_witness:
  "pingCounter (newConn True testConfig) = 0 \<and> (2 ^ 31 :: nat) \<le> 4294967297 \<and>
   Ping_payloads 4294967297 (newConn True testConfig) ! 2147483646 = ''2147483647'' \<and>
   Ping_payloads 4294967297 (newConn True testConfig) ! 2147483647 = ''-2147483648'' \<and>
   (0 :: nat) < 4294967297 \<and> (4294967296 :: nat) < 4294967297 \<and>
   Ping_payloads 4294967297 (newConn True testConfig) ! 0
     = Ping_payloads 4294967297 (newConn True testConfig) ! 4294967296 \<and>
   \<not> distinct (Ping_payloads 4294967297 (newConn True testConfig)) \<and>
   distinct (Ping_payloads 4294967296 (newConn True testConfig)) \<and>
   Ping_payloads 3 (newConn True testConfig) = [''1'', ''2'', ''3'']"
proof -
  let ?c = "newConn True testConfig"
  have z: "pingCounter ?c = 0"
    by (simp add: newConn_def newConn_literal_def go_def Let_def)
  have n: "(2 ^ 31 :: nat) \<le> 4294967297" by simp
  have k: "(0 :: nat) < 4294967297" "(4294967296 :: nat) < 4294967297" by simp_all
  note t = Ping_payload_counter_wraps [where c = ?c and n = 4294967297]
  from t z n have a: "Ping_payloads 4294967297 ?c ! 2147483646 = ''2147483647''"
    and b: "Ping_payloads 4294967297 ?c ! 2147483647 = ''-2147483648''"
    by blast+
  from t have "\<forall>k<4294967297. \<forall>k'<4294967297.
      (Ping_payloads 4294967297 ?c ! k = Ping_payloads 4294967297 ?c ! k')
        = (k mod 2 ^ 32 = k' mod 2 ^ 32)"
    by blast
  with k have "(Ping_payloads 4294967297 ?c ! 0 = Ping_payloads 4294967297 ?c ! 4294967296)
        = ((0 :: nat) mod 2 ^ 32 = 4294967296 mod 2 ^ 32)"
    by blast
  then have e: "Ping_payloads 4294967297 ?c ! 0 = Ping_payloads 4294967297 ?c ! 4294967296"
    by simp
  from t have "distinct (Ping_payloads 4294967297 ?c) = ((4294967297 :: nat) \<le> 2 ^ 32)"
    by blast
  then have d: "\<not> distinct (Ping_payloads 4294967297 ?c)" by simp
  from Ping_payload_counter_wraps [where c = ?c and n = 4294967296]
  have "distinct (Ping_payloads 4294967296 ?c) = ((4294967296 :: nat) \<le> 2 ^ 32)"
    by blast
  then have d': "distinct (Ping_payloads 4294967296 ?c)" by simp
  from Ping_payload_counter_wraps [where c = ?c and n = 3]
  have "Ping_payloads 3 ?c = map (\<lambda>k. Itoa (sint (pingCounter ?c + word_of_nat (Suc k)))) [0..<3]"
    by blast
  then have three: "Ping_payloads 3 ?c = [''1'', ''2'', ''3'']"
    by (simp add: z upt_rec Itoa_def digits_small digit_def)
  show ?thesis using z n a b k e d d' three by blast
qed

end
